theory Spec2Isabelle
  imports Main "HOL-Library.Word"
begin

section \<open>JavaScript strings\<close>

text \<open>
  A JavaScript string is a sequence of 16-bit code units. The literals of the components
  are ASCII, so they are written as HOL strings and embedded with \<open>lit\<close>.
\<close>

type_synonym jsstring = "16 word list"

definition lit :: "string \<Rightarrow> jsstring" where
  "lit cs = map of_char cs"

text \<open>
  \<open>String.prototype.trim\<close> removes the code units of the ECMAScript productions WhiteSpace
  and LineTerminator from both ends: TAB, LF, VT, FF, CR, SPACE, NBSP, U+1680,
  U+2000 to U+200A, U+2028, U+2029, U+202F, U+205F, U+3000 and U+FEFF.
\<close>

definition is_white :: "16 word \<Rightarrow> bool" where
  "is_white c =
     (c = 0x09 \<or> c = 0x0A \<or> c = 0x0B \<or> c = 0x0C \<or> c = 0x0D \<or> c = 0x20 \<or> c = 0xA0
      \<or> c = 0x1680 \<or> (0x2000 \<le> c \<and> c \<le> 0x200A) \<or> c = 0x2028 \<or> c = 0x2029
      \<or> c = 0x202F \<or> c = 0x205F \<or> c = 0x3000 \<or> c = 0xFEFF)"

definition trim :: "jsstring \<Rightarrow> jsstring" where
  "trim s = rev (dropWhile is_white (rev (dropWhile is_white s)))"

text \<open>A string is truthy in a JavaScript condition when it is not empty.\<close>

definition truthy :: "jsstring \<Rightarrow> bool" where
  "truthy s = (s \<noteq> [])"


section \<open>The chat component (\<open>src/components/Chat.jsx\<close>)\<close>

datatype sender = User | Bot

text \<open>
  An element of the \<open>messages\<close> array. The fields are \<open>id\<close>, \<open>text\<close> and \<open>sender\<close> in the
  source; \<open>id\<close> and \<open>text\<close> carry a suffix here because the bare names are taken.
\<close>

record msg =
  id_msg :: nat
  text_msg :: jsstring
  sender :: sender

text \<open>
  The state of the component.

  \<^item> \<open>message\<close> and \<open>messages\<close> are the two \<open>useState\<close> cells: the value each has once
    every update made so far is applied.
  \<^item> \<open>rendered\<close> is the \<open>messages\<close> array of the last render. \<open>handleSendMessage\<close> is
    created by a render and closes over that array: line 27 takes its length and line 31
    writes \<open>[...messages, newMessage]\<close> built from it, whatever the cell holds by then.
  \<^item> \<open>timers\<close> are the callbacks registered by \<open>setTimeout\<close> that have not fired yet. A
    callback closes over the same array as the handler that registered it, so a pending
    timer is recorded as that array. All timers have the same delay (1000 ms), so they
    fire in the order in which they were registered: the list is a queue, oldest first.

  React renders at the end of a click, key or change handler that set state, so the input
  text a handler reads is the current one, and after an accepted submission the rendered
  array is the one just written. The update made by a timer callback is rendered later,
  as an event of its own (\<open>Render\<close>); until then the handlers still close over the array
  of the render before. When that render happens is left open: \<open>Render\<close> may follow the
  timer at once or come after further events.
\<close>

record chat =
  message :: jsstring
  messages :: "msg list"
  rendered :: "msg list"
  timers :: "msg list list"

definition initial_messages :: "msg list" where
  "initial_messages =
     [\<lparr>id_msg = 1, text_msg = lit ''Hello! How can I assist you today?'', sender = Bot\<rparr>,
      \<lparr>id_msg = 2, text_msg = lit ''Hi!'', sender = User\<rparr>]"

definition initial_chat :: chat where
  "initial_chat =
     \<lparr>message = [], messages = initial_messages, rendered = initial_messages, timers = []\<rparr>"

text \<open>The object built at lines 26 to 30, from the \<open>message\<close> and \<open>messages\<close> of the render.\<close>

definition newMessage :: "chat \<Rightarrow> msg" where
  "newMessage s = \<lparr>id_msg = length (rendered s) + 1, text_msg = message s, sender = User\<rparr>"

text \<open>
  The object built inside the timer callback, lines 36 to 40; \<open>captured\<close> is the
  \<open>messages\<close> array the callback closed over.
\<close>

definition botResponse :: "msg list \<Rightarrow> msg" where
  "botResponse captured =
     \<lparr>id_msg = length captured + 2,
      text_msg = lit ''Thanks for your message! This is a demo response.'',
      sender = Bot\<rparr>"

text \<open>
  \<open>handleSendMessage\<close>, lines 24 to 44. \<open>setMessages([...messages, newMessage])\<close> replaces
  the cell by the rendered array with the new entry at its end; the render that follows
  shows that array.
\<close>

definition handleSendMessage :: "chat \<Rightarrow> chat" where
  "handleSendMessage s =
     (if truthy (trim (message s))
      then s\<lparr>messages := rendered s @ [newMessage s],
             rendered := rendered s @ [newMessage s],
             message := [],
             timers := timers s @ [rendered s]\<rparr>
      else s)"

text \<open>
  A timer fires: \<open>setMessages((prev) => [...prev, botResponse])\<close> appends to the current
  value of the cell. With no timer pending nothing happens.
\<close>

definition timerFires :: "chat \<Rightarrow> chat" where
  "timerFires s =
     (case timers s of
        [] \<Rightarrow> s
      | captured # rest \<Rightarrow>
          s\<lparr>messages := messages s @ [botResponse captured], timers := rest\<rparr>)"

text \<open>The render that shows what the timer callbacks have appended.\<close>

definition render :: "chat \<Rightarrow> chat" where
  "render s = s\<lparr>rendered := messages s\<rparr>"

text \<open>\<open>handleKeyPress\<close>: Enter without Shift submits, every other key is left alone.\<close>

definition handleKeyPress :: "jsstring \<Rightarrow> bool \<Rightarrow> chat \<Rightarrow> chat" where
  "handleKeyPress key shiftKey s =
     (if key = lit ''Enter'' \<and> \<not> shiftKey then handleSendMessage s else s)"

text \<open>The \<open>disabled\<close> attribute of the Send button, line 117.\<close>

definition sendDisabled :: "chat \<Rightarrow> bool" where
  "sendDisabled s = (\<not> truthy (trim (message s)))"

text \<open>
  The events the component reacts to: the input's \<open>onChange\<close>, a click on Send (a
  disabled button delivers no click), a key press in the input, a timer firing, and the
  render after timer callbacks.
\<close>

datatype chat_event =
  Change jsstring | ClickSend | KeyPress jsstring bool | TimerFires | Render

fun chat_step :: "chat \<Rightarrow> chat_event \<Rightarrow> chat" where
  "chat_step s (Change v) = s\<lparr>message := v\<rparr>"
| "chat_step s ClickSend = (if sendDisabled s then s else handleSendMessage s)"
| "chat_step s (KeyPress key shiftKey) = handleKeyPress key shiftKey s"
| "chat_step s TimerFires = timerFires s"
| "chat_step s Render = render s"

definition chat_run :: "chat_event list \<Rightarrow> chat \<Rightarrow> chat" where
  "chat_run evs s = foldl chat_step s evs"


section \<open>The converter component\<close>

text \<open>
  A \<open>File\<close> object, as far as the component reads it: \<open>name\<close>, \<open>type\<close> and \<open>size\<close> in the
  source.
\<close>

record js_file =
  name_file :: jsstring
  type_file :: jsstring
  size_file :: nat

text \<open>The values given to \<open>setStatusVariant\<close>: the strings info, success, warning, primary, danger.\<close>

datatype variant = Info | Success | Warning | Primary | Danger

text \<open>
  The six \<open>useState\<close> cells, the number of \<open>handleConvert\<close> calls suspended at their
  \<open>await\<close> (the stand-in for the conversion provider is a 3000 ms timer), and the value
  of the DOM file input that \<open>handleCancel\<close> clears. The code after the \<open>await\<close> reads
  nothing that the handler closed over, so a suspended call needs no data of its own.
\<close>

record converter =
  selectedFile :: "js_file option"
  conversionStatus :: jsstring
  isConverting :: bool
  statusVariant :: variant
  audioUrl :: "jsstring option"
  isAudioReady :: bool
  suspended :: nat
  fileInputValue :: jsstring

definition initial_converter :: converter where
  "initial_converter =
     \<lparr>selectedFile = None,
      conversionStatus = lit ''Waiting for file upload...'',
      isConverting = False,
      statusVariant = Info,
      audioUrl = None,
      isAudioReady = False,
      suspended = 0,
      fileInputValue = []\<rparr>"

text \<open>\<open>handleFileChange\<close>; the argument is \<open>e.target.files[0]\<close>, which is undefined when no file was chosen.\<close>

definition handleFileChange :: "js_file option \<Rightarrow> converter \<Rightarrow> converter" where
  "handleFileChange chosen s =
     (case chosen of
        Some f \<Rightarrow>
          (if type_file f = lit ''application/pdf''
           then s\<lparr>selectedFile := Some f,
                  conversionStatus := lit ''File selected: '' @ name_file f,
                  statusVariant := Success\<rparr>
           else s\<lparr>selectedFile := None,
                  conversionStatus := lit ''Please select a valid PDF file.'',
                  statusVariant := Warning\<rparr>)
      | None \<Rightarrow>
          s\<lparr>selectedFile := None,
            conversionStatus := lit ''Waiting for file upload...'',
            statusVariant := Info\<rparr>)"

text \<open>\<open>handleConvert\<close> up to its \<open>await\<close>, lines 45 to 62.\<close>

definition handleConvert :: "converter \<Rightarrow> converter" where
  "handleConvert s =
     (if selectedFile s = None
      then s\<lparr>conversionStatus := lit ''Please select a PDF file first.'',
             statusVariant := Warning\<rparr>
      else s\<lparr>isConverting := True,
             conversionStatus := lit ''Converting PDF to audio...'',
             statusVariant := Primary,
             suspended := suspended s + 1\<rparr>)"

definition demoAudioUrl :: jsstring where
  "demoAudioUrl = lit ''https://www.soundjay.com/misc/sounds-yoyo/beep-07a.mp3''"

text \<open>
  \<open>handleConvert\<close> after its \<open>await\<close>, lines 80 to 93. \<open>resolved\<close> says whether the \<open>try\<close>
  block ran to its end (the timer promise of the demo always resolves) or threw, which
  is what the \<open>catch\<close> block is for; \<open>finally\<close> runs in both cases. With no call
  suspended there is nothing to resume.
\<close>

definition convertSettles :: "bool \<Rightarrow> converter \<Rightarrow> converter" where
  "convertSettles resolved s =
     (if suspended s = 0 then s
      else if resolved
      then s\<lparr>audioUrl := Some demoAudioUrl,
             isAudioReady := True,
             conversionStatus := lit ''Conversion complete! Play your audio below.'',
             statusVariant := Success,
             isConverting := False,
             suspended := suspended s - 1\<rparr>
      else s\<lparr>conversionStatus := lit ''Conversion failed. Please try again.'',
             statusVariant := Danger,
             isConverting := False,
             suspended := suspended s - 1\<rparr>)"

text \<open>\<open>handleCancel\<close>; the element \<open>pdfFileInput\<close> exists whenever the component is mounted.\<close>

definition handleCancel :: "converter \<Rightarrow> converter" where
  "handleCancel s =
     s\<lparr>selectedFile := None,
       conversionStatus := lit ''Waiting for file upload...'',
       statusVariant := Info,
       isConverting := False,
       audioUrl := None,
       isAudioReady := False,
       fileInputValue := []\<rparr>"

text \<open>The \<open>disabled\<close> attributes of the file input, the Convert button and the Cancel button.\<close>

definition fileInputDisabled :: "converter \<Rightarrow> bool" where
  "fileInputDisabled s = isConverting s"

definition convertDisabled :: "converter \<Rightarrow> bool" where
  "convertDisabled s = (selectedFile s = None \<or> isConverting s)"

definition cancelDisabled :: "converter \<Rightarrow> bool" where
  "cancelDisabled s = isConverting s"

text \<open>The audio player is rendered when \<open>isAudioReady && audioUrl\<close> holds, line 162.\<close>

definition playerShown :: "converter \<Rightarrow> bool" where
  "playerShown s = (isAudioReady s \<and> (case audioUrl s of None \<Rightarrow> False | Some u \<Rightarrow> truthy u))"

datatype converter_event =
  FileChange "js_file option" | ClickConvert | ClickCancel | ConvertSettles bool

fun converter_step :: "converter \<Rightarrow> converter_event \<Rightarrow> converter" where
  "converter_step s (FileChange chosen) =
     (if fileInputDisabled s then s else handleFileChange chosen s)"
| "converter_step s ClickConvert = (if convertDisabled s then s else handleConvert s)"
| "converter_step s ClickCancel = (if cancelDisabled s then s else handleCancel s)"
| "converter_step s (ConvertSettles resolved) = convertSettles resolved s"

definition converter_run :: "converter_event list \<Rightarrow> converter \<Rightarrow> converter" where
  "converter_run evs s = foldl converter_step s evs"


section \<open>Running event lists\<close>

lemma chat_run_Nil [simp]: "chat_run [] s = s"
  by (simp add: chat_run_def)

lemma chat_run_Cons [simp]: "chat_run (e # evs) s = chat_run evs (chat_step s e)"
  by (simp add: chat_run_def)

lemma trim_Nil [simp]: "trim [] = []"
  by (simp add: trim_def)

text \<open>Trimming leaves nothing exactly when every code unit is white space.\<close>

lemma trim_blank_iff: "trim s = [] \<longleftrightarrow> (\<forall>c\<in>set s. is_white c)"
proof -
  have "(\<forall>c\<in>set (dropWhile is_white s). is_white c) \<longleftrightarrow> (\<forall>c\<in>set s. is_white c)"
  proof
    assume rest: "\<forall>c\<in>set (dropWhile is_white s). is_white c"
    have "dropWhile is_white s = []"
    proof (rule ccontr)
      assume ne: "dropWhile is_white s \<noteq> []"
      then have "\<not> is_white (hd (dropWhile is_white s))" by (rule hd_dropWhile)
      moreover from ne have "hd (dropWhile is_white s) \<in> set (dropWhile is_white s)"
        by (rule hd_in_set)
      ultimately show False using rest by blast
    qed
    then show "\<forall>c\<in>set s. is_white c" by (simp only: dropWhile_eq_Nil_conv)
  next
    assume "\<forall>c\<in>set s. is_white c"
    then show "\<forall>c\<in>set (dropWhile is_white s). is_white c"
      by (blast dest: set_dropWhileD)
  qed
  then show ?thesis
    by (simp add: trim_def)
qed

lemma trim_word: "trim (lit ''Hello'') \<noteq> []"
  by (simp add: trim_def lit_def is_white_def)





section \<open>Blank input\<close>

text \<open>
  C9. When the input is empty or consists of white space only (by \<open>trim_blank_iff\<close>, when
  trimming it leaves nothing), \<open>handleSendMessage\<close> changes nothing: no entry is appended
  to the transcript and no timer (the stand-in for the completion provider) is
  registered. The same holds for a click on Send and for Enter.
\<close>

theorem blank_submit_is_noop:
  assumes "trim (message s) = []"
  shows "handleSendMessage s = s
       \<and> chat_step s ClickSend = s
       \<and> chat_step s (KeyPress (lit ''Enter'') False) = s"
  using assms by (simp add: handleSendMessage_def handleKeyPress_def truthy_def)

theorem blank_submit_is_noop_witness:
  "trim (message (initial_chat\<lparr>message := lit ''   ''\<rparr>)) = []
   \<and> handleSendMessage (initial_chat\<lparr>message := lit ''   ''\<rparr>)
       = initial_chat\<lparr>message := lit ''   ''\<rparr>
   \<and> messages (handleSendMessage (initial_chat\<lparr>message := lit ''   ''\<rparr>)) = initial_messages
   \<and> timers (handleSendMessage (initial_chat\<lparr>message := lit ''   ''\<rparr>)) = []"
proof -
  have blank: "trim (message (initial_chat\<lparr>message := lit ''   ''\<rparr>)) = []"
    by (simp add: trim_def lit_def is_white_def)
  from blank_submit_is_noop [OF blank] blank show ?thesis
    by (simp add: initial_chat_def)
qed


section \<open>The text of a user entry\<close>

text \<open>
  The guard of \<open>handleSendMessage\<close> trims, the entry does not: line 28 stores \<open>message\<close>
  itself. Typing a space, \<open>hi\<close> and a space gives an entry whose text still has both
  spaces.
\<close>

theorem untrimmed_text_is_stored:
  "trim (lit '' hi '') = lit ''hi''
   \<and> text_msg (last (messages (handleSendMessage (initial_chat\<lparr>message := lit '' hi ''\<rparr>))))
       = lit '' hi ''
   \<and> text_msg (last (messages (handleSendMessage (initial_chat\<lparr>message := lit '' hi ''\<rparr>))))
       \<noteq> trim (lit '' hi '')"
  by (simp add: initial_chat_def initial_messages_def handleSendMessage_def
      truthy_def newMessage_def trim_def lit_def is_white_def)

text \<open>
  C3. For every input that is not blank after trimming, \<open>handleSendMessage\<close> leaves the
  transcript ending in one new user entry whose text is the input exactly as typed,
  surrounding white space included. The entry is put after the rendered array and its
  id is the length of that array plus one; on an up-to-date render that is the stored
  transcript with the entry appended.
\<close>

theorem submit_stores_text_as_typed:
  assumes "trim (message s) \<noteq> []"
  shows "messages (handleSendMessage s)
           = rendered s @
             [\<lparr>id_msg = length (rendered s) + 1, text_msg = message s, sender = User\<rparr>]
       \<and> (rendered s = messages s \<longrightarrow>
            messages (handleSendMessage s)
              = messages s @
                [\<lparr>id_msg = length (messages s) + 1, text_msg = message s, sender = User\<rparr>])"
  using assms by (simp add: handleSendMessage_def truthy_def newMessage_def)

theorem submit_stores_text_as_typed_witness:
  "trim (message (initial_chat\<lparr>message := lit '' hi ''\<rparr>)) \<noteq> []
   \<and> rendered (initial_chat\<lparr>message := lit '' hi ''\<rparr>)
       = messages (initial_chat\<lparr>message := lit '' hi ''\<rparr>)
   \<and> messages (handleSendMessage (initial_chat\<lparr>message := lit '' hi ''\<rparr>))
       = initial_messages @ [\<lparr>id_msg = 3, text_msg = lit '' hi '', sender = User\<rparr>]"
proof -
  have h: "trim (message (initial_chat\<lparr>message := lit '' hi ''\<rparr>)) \<noteq> []"
    by (simp add: trim_def lit_def is_white_def)
  have r: "rendered (initial_chat\<lparr>message := lit '' hi ''\<rparr>)
       = messages (initial_chat\<lparr>message := lit '' hi ''\<rparr>)"
    by (simp add: initial_chat_def)
  from submit_stores_text_as_typed [OF h] h r show ?thesis
    by (simp add: initial_chat_def initial_messages_def)
qed


section \<open>One submission, two entries\<close>





section \<open>No waiting state\<close>

lemma type_and_send:
  "trim t \<noteq> [] \<Longrightarrow>
   chat_step (chat_step s (Change t)) ClickSend =
     s\<lparr>messages := rendered s @
           [\<lparr>id_msg = length (rendered s) + 1, text_msg = t, sender = User\<rparr>],
       rendered := rendered s @
           [\<lparr>id_msg = length (rendered s) + 1, text_msg = t, sender = User\<rparr>],
       message := [],
       timers := timers s @ [rendered s]\<rparr>"
  by (simp add: sendDisabled_def handleSendMessage_def truthy_def newMessage_def)

lemma rounds_in_flight:
  "trim t \<noteq> [] \<Longrightarrow>
   length (timers (chat_run (concat (replicate n [Change t, ClickSend])) s)) = length (timers s) + n"
proof (induction n arbitrary: s)
  case 0
  then show ?case by simp
next
  case (Suc n)
  from Suc.IH [OF Suc.prems] type_and_send [OF Suc.prems] show ?case by simp
qed

lemma second_click_ignored:
  "chat_step (chat_step s ClickSend) ClickSend = chat_step s ClickSend"
  by (simp add: sendDisabled_def handleSendMessage_def truthy_def)

text \<open>
  Typing and sending twice without waiting for the first reply leaves two timers
  pending: the second submission was accepted, and the Send button was enabled while
  the first reply was outstanding.
\<close>

theorem two_exchanges_in_flight:
  "length (timers (chat_run [Change (lit ''a''), ClickSend, Change (lit ''b''), ClickSend]
                     initial_chat)) = 2
   \<and> \<not> sendDisabled (chat_run [Change (lit ''a''), ClickSend, Change (lit ''b'')] initial_chat)
   \<and> map text_msg (drop 2 (messages
         (chat_run [Change (lit ''a''), ClickSend, Change (lit ''b''), ClickSend] initial_chat)))
       = [lit ''a'', lit ''b'']"
  by (simp add: initial_chat_def initial_messages_def sendDisabled_def handleSendMessage_def
      truthy_def newMessage_def trim_def lit_def is_white_def)

text \<open>
  C1. The component has no waiting state. Send is disabled exactly when the input is
  blank after trimming, whatever timers are pending. A text that is not blank, typed and
  sent by a click or by Enter, is accepted in every state: the user entry is written and
  one more timer is pending, so after \<open>n\<close> rounds of typing and sending \<open>n\<close> more
  exchanges are in flight. An accepted submission clears the input, which disables Send
  until something is typed, so a second click right after it is ignored.
\<close>

theorem submissions_accepted_while_reply_pending:
  assumes "trim t \<noteq> []"
  shows "sendDisabled s = (trim (message s) = [])
       \<and> sendDisabled (s\<lparr>timers := ts\<rparr>) = sendDisabled s
       \<and> \<not> sendDisabled (s\<lparr>message := t\<rparr>)
       \<and> chat_step (chat_step s (Change t)) ClickSend =
           s\<lparr>messages := rendered s @
                 [\<lparr>id_msg = length (rendered s) + 1, text_msg = t, sender = User\<rparr>],
             rendered := rendered s @
                 [\<lparr>id_msg = length (rendered s) + 1, text_msg = t, sender = User\<rparr>],
             message := [],
             timers := timers s @ [rendered s]\<rparr>
       \<and> chat_step (chat_step s (Change t)) (KeyPress (lit ''Enter'') False) =
           chat_step (chat_step s (Change t)) ClickSend
       \<and> length (timers (chat_run (concat (replicate n [Change t, ClickSend])) s))
           = length (timers s) + n
       \<and> chat_step (chat_step s ClickSend) ClickSend = chat_step s ClickSend
       \<and> sendDisabled (chat_step (chat_step s (Change t)) ClickSend)"
proof -
  have a: "sendDisabled s = (trim (message s) = [])"
    by (simp add: sendDisabled_def truthy_def)
  have b: "sendDisabled (s\<lparr>timers := ts\<rparr>) = sendDisabled s"
    by (simp add: sendDisabled_def)
  have c: "\<not> sendDisabled (s\<lparr>message := t\<rparr>)"
    using assms by (simp add: sendDisabled_def truthy_def)
  note d = type_and_send [OF assms, of s]
  have e: "chat_step (chat_step s (Change t)) (KeyPress (lit ''Enter'') False) =
           chat_step (chat_step s (Change t)) ClickSend"
    using assms by (simp add: handleKeyPress_def sendDisabled_def truthy_def)
  note f = rounds_in_flight [OF assms, of n s]
  note g = second_click_ignored [of s]
  have h: "sendDisabled (chat_step (chat_step s (Change t)) ClickSend)"
    using assms by (simp add: sendDisabled_def truthy_def handleSendMessage_def)
  from a b c d e f g h show ?thesis by blast
qed

theorem submissions_accepted_while_reply_pending_witness:
  "trim (lit ''Hello'') \<noteq> []
   \<and> length (timers (chat_run (concat (replicate 3 [Change (lit ''Hello''), ClickSend]))
                       initial_chat)) = 3
   \<and> sendDisabled initial_chat
   \<and> \<not> sendDisabled (initial_chat\<lparr>message := lit ''Hello''\<rparr>)"
  using submissions_accepted_while_reply_pending [OF trim_word, of initial_chat _ 3] trim_word
  by (simp add: initial_chat_def)


section \<open>Entry ids\<close>

text \<open>
  When every submission waits until the reply of the one before is rendered, the ids
  stay \<open>1, 2, 3, ...\<close> in order.
\<close>

lemma exchange_in_turn_keeps_ids:
  assumes "timers s = []"
    and "rendered s = messages s"
    and "map id_msg (messages s) = [1..<Suc (length (messages s))]"
    and "trim (message s) \<noteq> []"
  shows "timers (render (timerFires (handleSendMessage s))) = []
       \<and> rendered (render (timerFires (handleSendMessage s)))
           = messages (render (timerFires (handleSendMessage s)))
       \<and> map id_msg (messages (render (timerFires (handleSendMessage s))))
           = [1..<Suc (length (messages (render (timerFires (handleSendMessage s)))))]"
  using assms
  by (simp add: handleSendMessage_def timerFires_def render_def truthy_def newMessage_def
      botResponse_def)

text \<open>
  C4. The ids are not strictly increasing when a submission is made while a reply is
  pending. The timer callback computes its id from the \<open>messages\<close> array it closed over
  (\<open>messages.length + 2\<close>), not from the array it appends to. Typing \<open>a\<close>, Send, typing
  \<open>b\<close>, Send, and then both timers: the second user entry and the first reply both get
  id 4.
\<close>

theorem overlapping_exchanges_repeat_an_id:
  "map id_msg (messages
     (chat_run [Change (lit ''a''), ClickSend, Change (lit ''b''), ClickSend, TimerFires, TimerFires]
        initial_chat))
     = [1, 2, 3, 4, 4, 5]"
  by (simp add: initial_chat_def initial_messages_def sendDisabled_def handleSendMessage_def
      timerFires_def truthy_def newMessage_def botResponse_def trim_def lit_def is_white_def)


section \<open>The reply text\<close>

text \<open>
  Started on an up-to-date render, the stored and the rendered transcript both keep the
  entries they had, and every assistant entry after those carries the demo reply.
\<close>

lemma chat_step_new_entries:
  assumes "\<exists>ys zs. messages s = base @ ys \<and> rendered s = base @ zs
            \<and> (\<forall>m\<in>set ys \<union> set zs. sender m = Bot \<longrightarrow>
                  text_msg m = lit ''Thanks for your message! This is a demo response.'')"
  shows "\<exists>ys zs. messages (chat_step s e) = base @ ys \<and> rendered (chat_step s e) = base @ zs
            \<and> (\<forall>m\<in>set ys \<union> set zs. sender m = Bot \<longrightarrow>
                  text_msg m = lit ''Thanks for your message! This is a demo response.'')"
proof -
  from assms obtain ys zs where m: "messages s = base @ ys" and r: "rendered s = base @ zs"
    and g: "\<forall>m\<in>set ys \<union> set zs. sender m = Bot \<longrightarrow>
              text_msg m = lit ''Thanks for your message! This is a demo response.''"
    by blast
  have sent: "\<exists>ys zs. messages (handleSendMessage s) = base @ ys
            \<and> rendered (handleSendMessage s) = base @ zs
            \<and> (\<forall>m\<in>set ys \<union> set zs. sender m = Bot \<longrightarrow>
                  text_msg m = lit ''Thanks for your message! This is a demo response.'')"
  proof (cases "truthy (trim (message s))")
    case True
    have "messages (handleSendMessage s) = base @ (zs @ [newMessage s])"
      and "rendered (handleSendMessage s) = base @ (zs @ [newMessage s])"
      using True r by (simp_all add: handleSendMessage_def)
    moreover have "\<forall>m\<in>set (zs @ [newMessage s]) \<union> set (zs @ [newMessage s]). sender m = Bot \<longrightarrow>
                  text_msg m = lit ''Thanks for your message! This is a demo response.''"
      using g by (auto simp: newMessage_def)
    ultimately show ?thesis by blast
  next
    case False
    then have "handleSendMessage s = s" by (simp add: handleSendMessage_def)
    with assms show ?thesis by simp
  qed
  show ?thesis
  proof (cases e)
    case (Change v)
    with assms show ?thesis by simp
  next
    case ClickSend
    with assms sent show ?thesis by simp
  next
    case (KeyPress key shiftKey)
    with assms sent show ?thesis by (simp add: handleKeyPress_def)
  next
    case TimerFires
    show ?thesis
    proof (cases "timers s")
      case Nil
      with TimerFires assms show ?thesis by (simp add: timerFires_def)
    next
      case (Cons c cs)
      have "messages (chat_step s e) = base @ (ys @ [botResponse c])"
        and "rendered (chat_step s e) = base @ zs"
        using TimerFires Cons m r by (simp_all add: timerFires_def)
      moreover have "\<forall>m\<in>set (ys @ [botResponse c]) \<union> set zs. sender m = Bot \<longrightarrow>
                  text_msg m = lit ''Thanks for your message! This is a demo response.''"
        using g by (auto simp: botResponse_def)
      ultimately show ?thesis by blast
    qed
  next
    case Render
    have "messages (chat_step s e) = base @ ys" and "rendered (chat_step s e) = base @ ys"
      using Render m by (simp_all add: render_def)
    moreover have "\<forall>m\<in>set ys \<union> set ys. sender m = Bot \<longrightarrow>
                  text_msg m = lit ''Thanks for your message! This is a demo response.''"
      using g by blast
    ultimately show ?thesis by blast
  qed
qed

lemma chat_run_new_entries:
  assumes "\<exists>ys zs. messages s = base @ ys \<and> rendered s = base @ zs
            \<and> (\<forall>m\<in>set ys \<union> set zs. sender m = Bot \<longrightarrow>
                  text_msg m = lit ''Thanks for your message! This is a demo response.'')"
  shows "\<exists>ys zs. messages (chat_run evs s) = base @ ys \<and> rendered (chat_run evs s) = base @ zs
            \<and> (\<forall>m\<in>set ys \<union> set zs. sender m = Bot \<longrightarrow>
                  text_msg m = lit ''Thanks for your message! This is a demo response.'')"
  using assms
proof (induction evs arbitrary: s)
  case Nil
  then show ?case by simp
next
  case (Cons e evs)
  from Cons.IH [OF chat_step_new_entries [OF Cons.prems]] show ?case by simp
qed

text \<open>
  Whatever the state at the start, an assistant entry that was in neither of its two
  arrays carries the demo reply.
\<close>

lemma chat_step_bot_entries:
  assumes "\<forall>m\<in>set (messages s) \<union> set (rendered s). sender m = Bot \<longrightarrow>
             text_msg m = lit ''Thanks for your message! This is a demo response.'' \<or> m \<in> old"
  shows "\<forall>m\<in>set (messages (chat_step s e)) \<union> set (rendered (chat_step s e)). sender m = Bot \<longrightarrow>
             text_msg m = lit ''Thanks for your message! This is a demo response.'' \<or> m \<in> old"
proof (cases e)
  case (Change v)
  with assms show ?thesis by simp
next
  case ClickSend
  with assms show ?thesis by (auto simp: handleSendMessage_def newMessage_def)
next
  case (KeyPress key shiftKey)
  with assms show ?thesis by (auto simp: handleKeyPress_def handleSendMessage_def newMessage_def)
next
  case TimerFires
  with assms show ?thesis by (auto simp: timerFires_def botResponse_def split: list.splits)
next
  case Render
  with assms show ?thesis by (auto simp: render_def)
qed

lemma chat_run_bot_entries:
  assumes "\<forall>m\<in>set (messages s) \<union> set (rendered s). sender m = Bot \<longrightarrow>
             text_msg m = lit ''Thanks for your message! This is a demo response.'' \<or> m \<in> old"
  shows "\<forall>m\<in>set (messages (chat_run evs s)) \<union> set (rendered (chat_run evs s)). sender m = Bot \<longrightarrow>
             text_msg m = lit ''Thanks for your message! This is a demo response.'' \<or> m \<in> old"
  using assms
proof (induction evs arbitrary: s)
  case Nil
  then show ?case by simp
next
  case (Cons e evs)
  from Cons.IH [OF chat_step_bot_entries [OF Cons.prems]] show ?case by simp
qed

text \<open>
  Two different requests, each answered and rendered before the next is made, get the
  same reply text.
\<close>

theorem two_requests_same_reply:
  "map text_msg (filter (\<lambda>m. sender m = Bot) (drop 2 (messages
     (chat_run [Change (lit ''Hello''), ClickSend, TimerFires, Render,
                Change (lit ''Tell me a joke''), ClickSend, TimerFires, Render] initial_chat))))
     = [lit ''Thanks for your message! This is a demo response.'',
        lit ''Thanks for your message! This is a demo response.'']"
  by (simp add: initial_chat_def initial_messages_def sendDisabled_def handleSendMessage_def
      timerFires_def render_def truthy_def newMessage_def botResponse_def trim_def lit_def
      is_white_def)

text \<open>
  C6. The stand-in for the completion provider is the timer callback, and it has one
  reply: every assistant entry it builds carries the same fixed text. So every assistant
  entry that any sequence of events adds to the transcript carries that text: the
  entries beyond the transcript of an up-to-date starting state, and from any starting
  state the entries that were in neither of its arrays. Nothing is chosen at random.
\<close>

theorem reply_is_one_fixed_text:
  "text_msg (botResponse captured) = lit ''Thanks for your message! This is a demo response.''
   \<and> (rendered s = messages s \<longrightarrow>
        (\<forall>m\<in>set (drop (length (messages s)) (messages (chat_run evs s))).
           sender m = Bot \<longrightarrow>
           text_msg m = lit ''Thanks for your message! This is a demo response.''))
   \<and> (\<forall>m\<in>set (messages (chat_run evs s)).
         sender m = Bot \<longrightarrow>
         text_msg m = lit ''Thanks for your message! This is a demo response.''
         \<or> m \<in> set (messages s) \<union> set (rendered s))"
proof -
  have a: "text_msg (botResponse captured)
             = lit ''Thanks for your message! This is a demo response.''"
    by (simp add: botResponse_def)
  have b: "rendered s = messages s \<longrightarrow>
        (\<forall>m\<in>set (drop (length (messages s)) (messages (chat_run evs s))).
           sender m = Bot \<longrightarrow>
           text_msg m = lit ''Thanks for your message! This is a demo response.'')"
  proof
    assume fresh: "rendered s = messages s"
    then have "\<exists>ys zs. messages s = messages s @ ys \<and> rendered s = messages s @ zs
            \<and> (\<forall>m\<in>set ys \<union> set zs. sender m = Bot \<longrightarrow>
                  text_msg m = lit ''Thanks for your message! This is a demo response.'')"
      by simp
    from chat_run_new_entries [OF this, of evs]
    obtain ys where "messages (chat_run evs s) = messages s @ ys"
      and "\<forall>m\<in>set ys. sender m = Bot \<longrightarrow>
             text_msg m = lit ''Thanks for your message! This is a demo response.''"
      by auto
    then show "\<forall>m\<in>set (drop (length (messages s)) (messages (chat_run evs s))).
           sender m = Bot \<longrightarrow>
           text_msg m = lit ''Thanks for your message! This is a demo response.''"
      by simp
  qed
  have "\<forall>m\<in>set (messages s) \<union> set (rendered s). sender m = Bot \<longrightarrow>
             text_msg m = lit ''Thanks for your message! This is a demo response.''
             \<or> m \<in> set (messages s) \<union> set (rendered s)"
    by blast
  from chat_run_bot_entries [OF this, of evs]
  have c: "\<forall>m\<in>set (messages (chat_run evs s)).
         sender m = Bot \<longrightarrow>
         text_msg m = lit ''Thanks for your message! This is a demo response.''
         \<or> m \<in> set (messages s) \<union> set (rendered s)"
    by blast
  from a b c show ?thesis by blast
qed

theorem reply_is_one_fixed_text_witness:
  "rendered initial_chat = messages initial_chat
   \<and> botResponse initial_messages
     \<in> set (drop (length (messages initial_chat))
              (messages (chat_run [Change (lit ''Hello''), ClickSend, TimerFires] initial_chat)))
   \<and> sender (botResponse initial_messages) = Bot
   \<and> text_msg (botResponse initial_messages)
       = lit ''Thanks for your message! This is a demo response.''"
proof -
  have fresh: "rendered initial_chat = messages initial_chat"
    by (simp add: initial_chat_def)
  have inp: "botResponse initial_messages
     \<in> set (drop (length (messages initial_chat))
              (messages (chat_run [Change (lit ''Hello''), ClickSend, TimerFires] initial_chat)))"
    using trim_word
    by (simp add: initial_chat_def sendDisabled_def handleSendMessage_def timerFires_def truthy_def)
  have bot: "sender (botResponse initial_messages) = Bot"
    by (simp add: botResponse_def)
  from reply_is_one_fixed_text
         [of initial_messages initial_chat "[Change (lit ''Hello''), ClickSend, TimerFires]"]
       fresh inp bot
  show ?thesis by blast
qed


section \<open>The initial transcript\<close>

lemma first_append_step:
  assumes "(messages s = initial_messages \<and> rendered s = initial_messages \<and> timers s = [])
         \<or> (\<exists>t ys zs.
              messages s = initial_messages @ \<lparr>id_msg = 3, text_msg = t, sender = User\<rparr> # ys
              \<and> rendered s = initial_messages @ \<lparr>id_msg = 3, text_msg = t, sender = User\<rparr> # zs)"
  shows "(messages (chat_step s e) = initial_messages \<and> rendered (chat_step s e) = initial_messages
          \<and> timers (chat_step s e) = [])
       \<or> (\<exists>t ys zs.
            messages (chat_step s e)
              = initial_messages @ \<lparr>id_msg = 3, text_msg = t, sender = User\<rparr> # ys
            \<and> rendered (chat_step s e)
              = initial_messages @ \<lparr>id_msg = 3, text_msg = t, sender = User\<rparr> # zs)"
  using assms
proof
  assume fresh: "messages s = initial_messages \<and> rendered s = initial_messages \<and> timers s = []"
  then show ?thesis
    by (cases e)
       (auto simp: handleSendMessage_def handleKeyPress_def timerFires_def render_def
          newMessage_def initial_messages_def)
next
  assume "\<exists>t ys zs.
              messages s = initial_messages @ \<lparr>id_msg = 3, text_msg = t, sender = User\<rparr> # ys
              \<and> rendered s = initial_messages @ \<lparr>id_msg = 3, text_msg = t, sender = User\<rparr> # zs"
  then obtain t ys zs
    where m: "messages s = initial_messages @ \<lparr>id_msg = 3, text_msg = t, sender = User\<rparr> # ys"
      and r: "rendered s = initial_messages @ \<lparr>id_msg = 3, text_msg = t, sender = User\<rparr> # zs"
    by blast
  have "\<exists>ys zs.
            messages (chat_step s e)
              = initial_messages @ \<lparr>id_msg = 3, text_msg = t, sender = User\<rparr> # ys
            \<and> rendered (chat_step s e)
              = initial_messages @ \<lparr>id_msg = 3, text_msg = t, sender = User\<rparr> # zs"
    using m r
    by (cases e)
       (auto simp: handleSendMessage_def handleKeyPress_def timerFires_def render_def
          split: list.splits)
  then show ?thesis by blast
qed

lemma first_append_run:
  assumes "(messages s = initial_messages \<and> rendered s = initial_messages \<and> timers s = [])
         \<or> (\<exists>t ys zs.
              messages s = initial_messages @ \<lparr>id_msg = 3, text_msg = t, sender = User\<rparr> # ys
              \<and> rendered s = initial_messages @ \<lparr>id_msg = 3, text_msg = t, sender = User\<rparr> # zs)"
  shows "(messages (chat_run evs s) = initial_messages \<and> rendered (chat_run evs s) = initial_messages
          \<and> timers (chat_run evs s) = [])
       \<or> (\<exists>t ys zs.
            messages (chat_run evs s)
              = initial_messages @ \<lparr>id_msg = 3, text_msg = t, sender = User\<rparr> # ys
            \<and> rendered (chat_run evs s)
              = initial_messages @ \<lparr>id_msg = 3, text_msg = t, sender = User\<rparr> # zs)"
  using assms
proof (induction evs arbitrary: s)
  case Nil
  then show ?case by simp
next
  case (Cons e evs)
  from Cons.IH [OF first_append_step [OF Cons.prems]] show ?case by simp
qed

text \<open>
  C10. The transcript starts with two placeholder entries, the assistant's greeting with
  id 1 and a user entry \<open>Hi!\<close> with id 2. Whatever happens, they stay its first two entries,
  so its first entry is never one the user submitted; and the third entry, once there
  is one, is a user entry with id 3.
\<close>

theorem transcript_starts_with_placeholders:
  "messages initial_chat
     = [\<lparr>id_msg = 1, text_msg = lit ''Hello! How can I assist you today?'', sender = Bot\<rparr>,
        \<lparr>id_msg = 2, text_msg = lit ''Hi!'', sender = User\<rparr>]
   \<and> take 2 (messages (chat_run evs initial_chat)) = messages initial_chat
   \<and> (2 < length (messages (chat_run evs initial_chat)) \<longrightarrow>
        id_msg (messages (chat_run evs initial_chat) ! 2) = 3
        \<and> sender (messages (chat_run evs initial_chat) ! 2) = User)"
proof -
  have start: "(messages initial_chat = initial_messages \<and> rendered initial_chat = initial_messages
                \<and> timers initial_chat = [])
         \<or> (\<exists>t ys zs.
              messages initial_chat
                = initial_messages @ \<lparr>id_msg = 3, text_msg = t, sender = User\<rparr> # ys
              \<and> rendered initial_chat
                = initial_messages @ \<lparr>id_msg = 3, text_msg = t, sender = User\<rparr> # zs)"
    by (simp add: initial_chat_def)
  have len: "length initial_messages = 2"
    by (simp add: initial_messages_def)
  from first_append_run [OF start, of evs]
  have "take 2 (messages (chat_run evs initial_chat)) = initial_messages
      \<and> (2 < length (messages (chat_run evs initial_chat)) \<longrightarrow>
        id_msg (messages (chat_run evs initial_chat) ! 2) = 3
        \<and> sender (messages (chat_run evs initial_chat) ! 2) = User)"
    using len by (auto simp: nth_append)
  then show ?thesis
    by (simp add: initial_chat_def initial_messages_def)
qed

theorem transcript_starts_with_placeholders_witness:
  "2 < length (messages (chat_run [Change (lit ''Hello''), ClickSend] initial_chat))
   \<and> id_msg (messages (chat_run [Change (lit ''Hello''), ClickSend] initial_chat) ! 2) = 3
   \<and> sender (messages (chat_run [Change (lit ''Hello''), ClickSend] initial_chat) ! 2) = User
   \<and> sender (hd (messages (chat_run [Change (lit ''Hello''), ClickSend] initial_chat))) = Bot"
proof -
  have long: "2 < length (messages (chat_run [Change (lit ''Hello''), ClickSend] initial_chat))"
    using trim_word
    by (simp add: initial_chat_def initial_messages_def sendDisabled_def handleSendMessage_def
        truthy_def)
  have first: "sender (hd (messages (chat_run [Change (lit ''Hello''), ClickSend] initial_chat))) = Bot"
    using trim_word
    by (simp add: initial_chat_def initial_messages_def sendDisabled_def handleSendMessage_def
        truthy_def)
  from transcript_starts_with_placeholders [of "[Change (lit ''Hello''), ClickSend]"] long first
  show ?thesis by blast
qed


section \<open>The converter: selecting, converting, cancelling\<close>

lemma converter_run_Nil [simp]: "converter_run [] s = s"
  by (simp add: converter_run_def)

lemma converter_run_Cons [simp]:
  "converter_run (e # evs) s = converter_run evs (converter_step s e)"
  by (simp add: converter_run_def)

lemma pdf_type_differs_from_png: "lit ''image/png'' \<noteq> lit ''application/pdf''"
  by (simp add: lit_def)

text \<open>
  C7. Choosing a file whose type is not \<open>application/pdf\<close> leaves no file selected,
  whatever the state before. \<open>handleConvert\<close> then only sets the status message
  \<open>Please select a PDF file first.\<close> with the warning variant: no call is suspended on
  the provider, \<open>isConverting\<close> and the result reference are as before, and the Convert
  button is disabled.
\<close>

theorem non_pdf_never_converts:
  assumes "type_file f \<noteq> lit ''application/pdf''"
  shows "selectedFile (handleFileChange (Some f) s) = None
       \<and> handleConvert (handleFileChange (Some f) s)
           = (handleFileChange (Some f) s)
               \<lparr>conversionStatus := lit ''Please select a PDF file first.'',
                statusVariant := Warning\<rparr>
       \<and> isConverting (handleConvert (handleFileChange (Some f) s)) = isConverting s
       \<and> suspended (handleConvert (handleFileChange (Some f) s)) = suspended s
       \<and> audioUrl (handleConvert (handleFileChange (Some f) s)) = audioUrl s
       \<and> convertDisabled (handleFileChange (Some f) s)"
  using assms by (simp add: handleFileChange_def handleConvert_def convertDisabled_def)

theorem non_pdf_never_converts_witness:
  "type_file \<lparr>name_file = lit ''cat.png'', type_file = lit ''image/png'', size_file = 2048\<rparr>
     \<noteq> lit ''application/pdf''
   \<and> selectedFile (handleFileChange
        (Some \<lparr>name_file = lit ''cat.png'', type_file = lit ''image/png'', size_file = 2048\<rparr>)
        initial_converter) = None
   \<and> conversionStatus (handleConvert (handleFileChange
        (Some \<lparr>name_file = lit ''cat.png'', type_file = lit ''image/png'', size_file = 2048\<rparr>)
        initial_converter)) = lit ''Please select a PDF file first.''
   \<and> \<not> isConverting (handleConvert (handleFileChange
        (Some \<lparr>name_file = lit ''cat.png'', type_file = lit ''image/png'', size_file = 2048\<rparr>)
        initial_converter))
   \<and> suspended (handleConvert (handleFileChange
        (Some \<lparr>name_file = lit ''cat.png'', type_file = lit ''image/png'', size_file = 2048\<rparr>)
        initial_converter)) = 0"
proof -
  have h: "type_file \<lparr>name_file = lit ''cat.png'', type_file = lit ''image/png'', size_file = 2048\<rparr>
     \<noteq> lit ''application/pdf''"
    using pdf_type_differs_from_png by simp
  from non_pdf_never_converts [OF h, of initial_converter] h show ?thesis
    by (simp add: initial_converter_def handleFileChange_def)
qed

text \<open>No event but a click on Cancel removes a result reference.\<close>

lemma step_keeps_reference:
  "audioUrl s \<noteq> None \<Longrightarrow> e \<noteq> ClickCancel \<Longrightarrow> audioUrl (converter_step s e) \<noteq> None"
  by (cases e)
     (auto simp: handleFileChange_def handleConvert_def convertSettles_def split: option.splits)

text \<open>No event but a conversion that succeeds sets one.\<close>

lemma step_sets_reference:
  "audioUrl s = None \<Longrightarrow> audioUrl (converter_step s e) \<noteq> None \<Longrightarrow>
   e = ConvertSettles True \<and> 0 < suspended s"
  by (cases e)
     (auto simp: handleFileChange_def handleConvert_def convertSettles_def handleCancel_def
        split: option.splits if_splits)

text \<open>
  After one conversion has succeeded, Convert can be clicked again; the component is
  then converting while the audio reference of the earlier conversion is still set and
  its player is still shown.
\<close>

theorem earlier_result_shown_while_converting:
  "isConverting
     (converter_run
        [FileChange (Some \<lparr>name_file = lit ''a.pdf'', type_file = lit ''application/pdf'',
                            size_file = 1024\<rparr>),
         ClickConvert, ConvertSettles True, ClickConvert] initial_converter)
   \<and> audioUrl
     (converter_run
        [FileChange (Some \<lparr>name_file = lit ''a.pdf'', type_file = lit ''application/pdf'',
                            size_file = 1024\<rparr>),
         ClickConvert, ConvertSettles True, ClickConvert] initial_converter)
       = Some demoAudioUrl
   \<and> conversionStatus
     (converter_run
        [FileChange (Some \<lparr>name_file = lit ''a.pdf'', type_file = lit ''application/pdf'',
                            size_file = 1024\<rparr>),
         ClickConvert, ConvertSettles True, ClickConvert] initial_converter)
       = lit ''Converting PDF to audio...''
   \<and> playerShown
     (converter_run
        [FileChange (Some \<lparr>name_file = lit ''a.pdf'', type_file = lit ''application/pdf'',
                            size_file = 1024\<rparr>),
         ClickConvert, ConvertSettles True, ClickConvert] initial_converter)"
  by (simp add: initial_converter_def fileInputDisabled_def convertDisabled_def
      handleFileChange_def handleConvert_def convertSettles_def playerShown_def truthy_def
      demoAudioUrl_def lit_def)

text \<open>
  C2. The result reference and \<open>isAudioReady\<close> are left as they are by \<open>handleConvert\<close>,
  by \<open>handleFileChange\<close> and by a conversion that fails; a conversion that succeeds sets
  the reference to the demo URL and \<open>isAudioReady\<close> to true, whether or not a reference
  was set before; \<open>handleCancel\<close> clears both. No event other than a click on Cancel
  removes a reference, and none other than a successful conversion sets one. A conversion
  started with a file selected is converting until it settles, and then ends with the
  status \<open>Conversion complete!\<close> and variant success, or \<open>Conversion failed.\<close> and
  variant danger. So for a conversion started with no reference set, none is set while
  converting, and afterwards one is set if and only if the conversion succeeded.
\<close>

theorem result_reference_kept_until_cancel:
  "audioUrl (handleConvert s) = audioUrl s
   \<and> isAudioReady (handleConvert s) = isAudioReady s
   \<and> audioUrl (handleFileChange chosen s) = audioUrl s
   \<and> isAudioReady (handleFileChange chosen s) = isAudioReady s
   \<and> audioUrl (convertSettles resolved s)
       = (if resolved \<and> 0 < suspended s then Some demoAudioUrl else audioUrl s)
   \<and> isAudioReady (convertSettles resolved s)
       = (if resolved \<and> 0 < suspended s then True else isAudioReady s)
   \<and> audioUrl (handleCancel s) = None
   \<and> \<not> isAudioReady (handleCancel s)
   \<and> (audioUrl s \<noteq> None \<and> e \<noteq> ClickCancel \<longrightarrow> audioUrl (converter_step s e) \<noteq> None)
   \<and> (audioUrl s = None \<and> audioUrl (converter_step s e) \<noteq> None \<longrightarrow>
        e = ConvertSettles True \<and> 0 < suspended s)
   \<and> (selectedFile s \<noteq> None \<longrightarrow>
        isConverting (handleConvert s)
        \<and> suspended (handleConvert s) = suspended s + 1
        \<and> audioUrl (convertSettles resolved (handleConvert s))
            = (if resolved then Some demoAudioUrl else audioUrl s)
        \<and> isAudioReady (convertSettles resolved (handleConvert s))
            = (if resolved then True else isAudioReady s)
        \<and> \<not> isConverting (convertSettles resolved (handleConvert s))
        \<and> suspended (convertSettles resolved (handleConvert s)) = suspended s
        \<and> conversionStatus (convertSettles resolved (handleConvert s))
            = (if resolved then lit ''Conversion complete! Play your audio below.''
               else lit ''Conversion failed. Please try again.'')
        \<and> statusVariant (convertSettles resolved (handleConvert s))
            = (if resolved then Success else Danger))
   \<and> (selectedFile s \<noteq> None \<and> audioUrl s = None \<longrightarrow>
        audioUrl (handleConvert s) = None
        \<and> (audioUrl (convertSettles resolved (handleConvert s)) \<noteq> None) = resolved)"
proof -
  have handlers: "audioUrl (handleConvert s) = audioUrl s
   \<and> isAudioReady (handleConvert s) = isAudioReady s
   \<and> audioUrl (handleFileChange chosen s) = audioUrl s
   \<and> isAudioReady (handleFileChange chosen s) = isAudioReady s
   \<and> audioUrl (handleCancel s) = None
   \<and> \<not> isAudioReady (handleCancel s)"
    by (simp add: handleConvert_def handleFileChange_def handleCancel_def split: option.splits)
  have settles: "audioUrl (convertSettles resolved s)
       = (if resolved \<and> 0 < suspended s then Some demoAudioUrl else audioUrl s)
   \<and> isAudioReady (convertSettles resolved s)
       = (if resolved \<and> 0 < suspended s then True else isAudioReady s)"
    by (simp add: convertSettles_def)
  have steps: "(audioUrl s \<noteq> None \<and> e \<noteq> ClickCancel \<longrightarrow> audioUrl (converter_step s e) \<noteq> None)
   \<and> (audioUrl s = None \<and> audioUrl (converter_step s e) \<noteq> None \<longrightarrow>
        e = ConvertSettles True \<and> 0 < suspended s)"
    using step_keeps_reference [of s e] step_sets_reference [of s e] by blast
  have job: "selectedFile s \<noteq> None \<longrightarrow>
        isConverting (handleConvert s)
        \<and> suspended (handleConvert s) = suspended s + 1
        \<and> audioUrl (convertSettles resolved (handleConvert s))
            = (if resolved then Some demoAudioUrl else audioUrl s)
        \<and> isAudioReady (convertSettles resolved (handleConvert s))
            = (if resolved then True else isAudioReady s)
        \<and> \<not> isConverting (convertSettles resolved (handleConvert s))
        \<and> suspended (convertSettles resolved (handleConvert s)) = suspended s
        \<and> conversionStatus (convertSettles resolved (handleConvert s))
            = (if resolved then lit ''Conversion complete! Play your audio below.''
               else lit ''Conversion failed. Please try again.'')
        \<and> statusVariant (convertSettles resolved (handleConvert s))
            = (if resolved then Success else Danger)"
    by (simp add: handleConvert_def convertSettles_def)
  have fresh: "selectedFile s \<noteq> None \<and> audioUrl s = None \<longrightarrow>
        audioUrl (handleConvert s) = None
        \<and> (audioUrl (convertSettles resolved (handleConvert s)) \<noteq> None) = resolved"
    by (simp add: handleConvert_def convertSettles_def)
  from handlers settles steps job fresh show ?thesis
    by (elim conjE) (intro conjI; assumption)
qed

theorem result_reference_kept_until_cancel_witness:
  "selectedFile (handleFileChange
       (Some \<lparr>name_file = lit ''a.pdf'', type_file = lit ''application/pdf'', size_file = 1024\<rparr>)
       initial_converter) \<noteq> None
   \<and> audioUrl (handleFileChange
       (Some \<lparr>name_file = lit ''a.pdf'', type_file = lit ''application/pdf'', size_file = 1024\<rparr>)
       initial_converter) = None
   \<and> audioUrl (handleConvert (handleFileChange
       (Some \<lparr>name_file = lit ''a.pdf'', type_file = lit ''application/pdf'', size_file = 1024\<rparr>)
       initial_converter)) = None
   \<and> audioUrl (convertSettles True (handleConvert (handleFileChange
       (Some \<lparr>name_file = lit ''a.pdf'', type_file = lit ''application/pdf'', size_file = 1024\<rparr>)
       initial_converter))) = Some demoAudioUrl
   \<and> isAudioReady (convertSettles True (handleConvert (handleFileChange
       (Some \<lparr>name_file = lit ''a.pdf'', type_file = lit ''application/pdf'', size_file = 1024\<rparr>)
       initial_converter)))
   \<and> ClickConvert \<noteq> ClickCancel
   \<and> audioUrl (converter_step (convertSettles True (handleConvert (handleFileChange
       (Some \<lparr>name_file = lit ''a.pdf'', type_file = lit ''application/pdf'', size_file = 1024\<rparr>)
       initial_converter))) ClickConvert) \<noteq> None"
proof -
  let ?s = "handleFileChange
       (Some \<lparr>name_file = lit ''a.pdf'', type_file = lit ''application/pdf'', size_file = 1024\<rparr>)
       initial_converter"
  let ?d = "convertSettles True (handleConvert ?s)"
  have h: "selectedFile ?s \<noteq> None \<and> audioUrl ?s = None"
    by (simp add: handleFileChange_def initial_converter_def)
  from result_reference_kept_until_cancel [of ?s _ True] h
  have first: "audioUrl (handleConvert ?s) = None \<and> audioUrl ?d = Some demoAudioUrl
               \<and> isAudioReady ?d"
    by simp
  then have set: "audioUrl ?d \<noteq> None" by simp
  have other: "ClickConvert \<noteq> ClickCancel" by simp
  from result_reference_kept_until_cancel [of ?d _ _ ClickConvert] set other
  have kept: "audioUrl (converter_step ?d ClickConvert) \<noteq> None"
    by simp
  from h first other kept show ?thesis
    by simp
qed

text \<open>
  C8. From every state, \<open>handleCancel\<close> gives the initial state of the component in one
  step: no file selected, no result reference, the player hidden, not converting, the
  status message and variant (which also carry the failure message) back to
  \<open>Waiting for file upload...\<close> and info. It suspends no call on the provider, and a
  call already suspended stays so.
\<close>

theorem cancel_resets_job:
  "selectedFile (handleCancel s) = None
   \<and> audioUrl (handleCancel s) = None
   \<and> \<not> isAudioReady (handleCancel s)
   \<and> \<not> isConverting (handleCancel s)
   \<and> conversionStatus (handleCancel s) = lit ''Waiting for file upload...''
   \<and> statusVariant (handleCancel s) = Info
   \<and> suspended (handleCancel s) = suspended s
   \<and> handleCancel s = initial_converter\<lparr>suspended := suspended s\<rparr>"
  by (simp add: handleCancel_def initial_converter_def)

end
